theory Spec2Isabelle
  imports Complex_Main "HOL-Library.AList"
begin

section \<open>Errors, randomness and settings\<close>

text \<open>
  The exceptions the modelled code can raise. \<open>ValueError\<close> is what
  \<^verbatim>\<open>random.randint\<close> raises on an empty range, \<open>ZeroDivisionError\<close> what a float
  division by zero raises, \<open>InvalidStateError\<close> what \<^verbatim>\<open>Future.set_result\<close> raises on
  a future that is already done, \<open>AttributeError\<close> what an attribute access on
  \<^verbatim>\<open>None\<close> raises, \<open>DiscordException\<close> a failure of a call to the chat platform,
  \<open>NinjaError\<close> the repository's own exception.
\<close>

datatype error =
  ValueError | ZeroDivisionError | InvalidStateError | AttributeError | DiscordException |
  NinjaError

text \<open>
  \<^verbatim>\<open>random\<close> is a source of nondeterminism. Each call takes the raw draw as an
  extra argument: \<open>randbelow entropy width\<close> is \<^verbatim>\<open>Random._randbelow(width)\<close>, some
  integer in \<open>[0, width)\<close>; \<^verbatim>\<open>randrange(start, stop)\<close> raises on an empty range and
  \<^verbatim>\<open>randint(a, b)\<close> is \<^verbatim>\<open>randrange(a, b + 1)\<close>.
\<close>

definition randbelow :: "nat \<Rightarrow> int \<Rightarrow> int" where
  "randbelow entropy width = int entropy mod width"

definition randrange :: "nat \<Rightarrow> int \<Rightarrow> int \<Rightarrow> error + int" where
  "randrange entropy start stop =
     (let width = stop - start
      in if width > 0 then Inr (start + randbelow entropy width) else Inl ValueError)"

definition randint :: "nat \<Rightarrow> int \<Rightarrow> int \<Rightarrow> error + int" where
  "randint entropy a b = randrange entropy a (b + 1)"

text \<open>The \<^verbatim>\<open>Game\<close> section of the settings (\<^verbatim>\<open>settings.py\<close>).\<close>

record Game =
  public_only :: bool
  cooldown :: int
  max_time_jitter :: int
  probability_multiplier :: int
  max_points :: int
  reaction_timeout :: int
  channel_scalars :: "(int \<times> real) list"
  auto_start :: bool

text \<open>
  \<^verbatim>\<open>AllowDenySet\<close>: a set of elements that are strings or integers; the set is a
  wildcard when it equals \<^verbatim>\<open>set("*")\<close>, and then contains everything. The identifier
  looked up is an integer or \<^verbatim>\<open>None\<close> (a channel without category).
\<close>

datatype AllowDenyElement = StrElem string | IntElem int

type_synonym AllowDenySet = "AllowDenyElement set"

definition wildcard_set :: "AllowDenySet \<Rightarrow> bool" where
  "wildcard_set s = (s = {StrElem ''*''})"

definition contains :: "AllowDenySet \<Rightarrow> int option \<Rightarrow> bool" where
  "contains s snowflake_id =
     (if wildcard_set s then True
      else case snowflake_id of None \<Rightarrow> False | Some i \<Rightarrow> IntElem i \<in> s)"

record AllowDenyGroup =
  allow :: AllowDenySet
  deny :: AllowDenySet

record Permissions =
  categories :: AllowDenyGroup
  channels :: AllowDenyGroup

record Guild =
  admins_id :: int
  moderators_id :: int
  helpers_id :: int
  guild_id :: int
  emoji_id :: int
  emoji_full :: string
  summary_channel :: int
  bypass_roles :: "int list"
  commands_channels :: "int list"
  emoji_confirm :: int
  emoji_deny :: int

record Settings =
  permissions :: Permissions
  game :: Game
  guild :: Guild

section \<open>Messages and the hunting filter\<close>

text \<open>
  What the code reads of a \<^verbatim>\<open>discord.Message\<close>: its id, the id of its guild
  (\<^verbatim>\<open>None\<close> for a direct message), whether the author is a bot, and of its channel
  the id, the category id and the two permissions that
  \<^verbatim>\<open>channel.permissions_for\<close> resolves for a user holding only the default role.
\<close>

record Channel =
  channel_id :: int
  category_id :: "int option"
  default_read_messages :: bool
  default_send_messages :: bool

record Message =
  message_id :: int
  message_guild :: "int option"
  author_bot :: bool
  channel :: Channel

text \<open>\<^verbatim>\<open>HuntingPhase._ignored_message\<close>, check by check in the source's order.\<close>

definition ignored_message :: "Settings \<Rightarrow> Message \<Rightarrow> bool" where
  "ignored_message st m =
     (if message_guild m \<noteq> Some (guild_id (guild st)) then True
      else if author_bot m then True
      else if public_only (game st) \<and>
              (\<not> default_read_messages (channel m) \<or> \<not> default_send_messages (channel m))
        then True
      else if contains (deny (channels (permissions st))) (Some (channel_id (channel m)))
        then True
      else if contains (allow (channels (permissions st))) (Some (channel_id (channel m)))
        then False
      else if contains (deny (categories (permissions st))) (category_id (channel m))
        then True
      else if contains (allow (categories (permissions st))) (category_id (channel m))
        then False
      else True)"

section \<open>The phase life cycle (\<^verbatim>\<open>NinjaPhase\<close>)\<close>

text \<open>
  An \<^verbatim>\<open>asyncio.Future\<close> is pending, holds a result, or was cancelled; a background
  task is pending, done or cancelled.
\<close>

datatype 'r future = Pending | Result 'r | FutureCancelled

datatype task = TaskPending | TaskDone | TaskCancelled

text \<open>
  \<^verbatim>\<open>NinjaPhase.__init__\<close>: a pending future, both flags false, the creation time
  (seconds on the wall clock).
\<close>

record 'r NinjaPhase =
  future :: "'r future"
  cancelled :: bool
  finished :: bool
  timestamp :: real

definition NinjaPhase_init :: "real \<Rightarrow> 'r NinjaPhase" where
  "NinjaPhase_init now =
     \<lparr>future = Pending, cancelled = False, finished = False, timestamp = now\<rparr>"

definition finish :: "('r, 'z) NinjaPhase_scheme \<Rightarrow> ('r, 'z) NinjaPhase_scheme" where
  "finish ph = ph\<lparr>finished := True\<rparr>"

definition active :: "('r, 'z) NinjaPhase_scheme \<Rightarrow> bool" where
  "active ph = (\<not> finished ph \<and> \<not> cancelled ph)"

text \<open>
  \<^verbatim>\<open>Future.set_result\<close>: allowed on a pending future only.
\<close>

definition set_result ::
  "'r \<Rightarrow> ('r, 'z) NinjaPhase_scheme \<Rightarrow> error + ('r, 'z) NinjaPhase_scheme" where
  "set_result r ph =
     (case future ph of
        Pending \<Rightarrow> Inr (ph\<lparr>future := Result r\<rparr>)
      | _ \<Rightarrow> Inl InvalidStateError)"

text \<open>
  \<^verbatim>\<open>NinjaPhase.run\<close>:
  \<^verbatim>\<open>
    try:     return await self._future
    except asyncio.CancelledError: self._cancel()
    finally: self._finish()
  \<close>
  The controller is suspended in \<^verbatim>\<open>await self._future\<close>. It wakes up either because
  its own task was cancelled (\<open>task_cancelled\<close>, a \<^verbatim>\<open>CancelledError\<close> is thrown into
  the await) or because the future holds a result. The subclass's \<^verbatim>\<open>_cancel\<close> is the
  parameter \<open>cancel_impl\<close>. While the future is pending and nobody cancels,
  \<open>run\<close> has not returned: \<open>None\<close>. Otherwise the value is the phase after
  \<^verbatim>\<open>run\<close> and what \<^verbatim>\<open>run\<close> returned (\<open>None\<close> for Python's \<^verbatim>\<open>None\<close> after a
  cancellation).
\<close>

definition run ::
  "(('r, 'z) NinjaPhase_scheme \<Rightarrow> ('r, 'z) NinjaPhase_scheme) \<Rightarrow> bool \<Rightarrow>
     ('r, 'z) NinjaPhase_scheme \<Rightarrow> (('r, 'z) NinjaPhase_scheme \<times> 'r option) option" where
  "run cancel_impl task_cancelled ph =
     (if task_cancelled then Some (finish (cancel_impl ph), None)
      else case future ph of
             Result r \<Rightarrow> Some (finish ph, Some r)
           | Pending \<Rightarrow> None
           | FutureCancelled \<Rightarrow> Some (finish (cancel_impl ph), None))"

section \<open>\<^verbatim>\<open>SleepingPhase\<close>\<close>

record 'r SleepingPhase = "'r NinjaPhase" +
  sleep_duration :: int
  sleep_task :: task

text \<open>
  \<^verbatim>\<open>SleepingPhase.__init__\<close>:
  \<^verbatim>\<open>self._sleep_duration = COOLDOWN + random.randint(1, MAX_TIME_JITTER)\<close>, then the
  sleep task is scheduled. An exception of \<^verbatim>\<open>randint\<close> leaves the constructor before
  the task exists.
\<close>

definition SleepingPhase_init :: "Game \<Rightarrow> nat \<Rightarrow> real \<Rightarrow> error + unit SleepingPhase" where
  "SleepingPhase_init cfg entropy now =
     (case randint entropy 1 (max_time_jitter cfg) of
        Inl e \<Rightarrow> Inl e
      | Inr jitter \<Rightarrow>
          Inr (NinjaPhase.extend (NinjaPhase_init now)
                 (SleepingPhase.fields (cooldown cfg + jitter) TaskPending)))"

text \<open>
  \<^verbatim>\<open>SleepingPhase.time_remaining\<close> at wall-clock time \<open>now\<close>:
  \<^verbatim>\<open>max(self._sleep_duration - time_passed, 0.0)\<close>.
\<close>

definition sleep_time_remaining :: "unit SleepingPhase \<Rightarrow> real \<Rightarrow> real" where
  "sleep_time_remaining ph now =
     (let time_passed = now - timestamp ph
      in max (real_of_int (sleep_duration ph) - time_passed) 0)"

text \<open>
  \<^verbatim>\<open>SleepingPhase.sleep\<close>, started at wall-clock time \<open>now\<close>: it sleeps for
  \<open>time_remaining\<close> and then resolves the future. The value is the wall-clock time
  of the wake-up and the phase with its future resolved.
\<close>

definition sleep :: "unit SleepingPhase \<Rightarrow> real \<Rightarrow> real \<times> (error + unit SleepingPhase)" where
  "sleep ph now =
     (let time = sleep_time_remaining ph now
      in (now + time, set_result () (ph\<lparr>sleep_task := TaskDone\<rparr>)))"

definition sleeping_cancel :: "unit SleepingPhase \<Rightarrow> unit SleepingPhase" where
  "sleeping_cancel ph =
     ph\<lparr>sleep_task := (if sleep_task ph = TaskPending then TaskCancelled else sleep_task ph),
        cancelled := True\<rparr>"

section \<open>\<^verbatim>\<open>HuntingPhase\<close>\<close>

text \<open>
  The field \<open>probability\<close> is the \<^verbatim>\<open>itertools.count(1)\<close> iterator, held as the
  value its next \<^verbatim>\<open>next()\<close> returns.
\<close>

record 'r HuntingPhase = "'r NinjaPhase" +
  probability :: nat

definition HuntingPhase_init :: "real \<Rightarrow> Message HuntingPhase" where
  "HuntingPhase_init now =
     NinjaPhase.extend (NinjaPhase_init now) (HuntingPhase.fields 1)"

text \<open>
  \<^verbatim>\<open>ninja_probability\<close>: \<^verbatim>\<open>p = next(self._probability); return min(p / 100, 1.0)\<close>.
  Reading the property advances the counter. Python's floats are modelled as reals.
\<close>

definition ninja_probability :: "Message HuntingPhase \<Rightarrow> Message HuntingPhase \<times> real" where
  "ninja_probability ph =
     (let p = probability ph
      in (ph\<lparr>probability := p + 1\<rparr>, min (real p / 100) 1))"

text \<open>
  \<^verbatim>\<open>hunt_for_messages\<close> on one incoming message; \<open>draw\<close> is the value of
  \<^verbatim>\<open>random.random()\<close>, a number in \<open>[0, 1)\<close>. The outcome says which exit the handler
  took; \<open>Failed\<close> is the exception of \<^verbatim>\<open>set_result\<close> on a future that already
  holds a message (the counter has advanced by then).
\<close>

datatype hunt_outcome = Ignored | NotLucky | Ducked | Failed error

definition hunt_for_messages ::
  "Settings \<Rightarrow> Message HuntingPhase \<Rightarrow> Message \<Rightarrow> real \<Rightarrow> Message HuntingPhase \<times> hunt_outcome"
  where
  "hunt_for_messages st ph message draw =
     (if \<not> active ph \<or> ignored_message st message then (ph, Ignored)
      else let (ph1, np) = ninja_probability ph
           in if draw > real_of_int (probability_multiplier (game st)) * np
              then (ph1, NotLucky)
              else case set_result message ph1 of
                     Inl e \<Rightarrow> (ph1, Failed e)
                   | Inr ph2 \<Rightarrow> (ph2, Ducked))"

text \<open>
  \<^verbatim>\<open>HuntingPhase\<close> overrides \<^verbatim>\<open>_finish\<close> with the same body as the base class, so
  \<open>run\<close> uses \<open>finish\<close> for every phase.
\<close>

definition hunting_finish :: "Message HuntingPhase \<Rightarrow> Message HuntingPhase" where
  "hunting_finish ph = ph\<lparr>finished := True\<rparr>"

definition hunting_cancel :: "Message HuntingPhase \<Rightarrow> Message HuntingPhase" where
  "hunting_cancel ph = ph\<lparr>cancelled := True\<rparr>"

text \<open>The handler over a stream of messages, each with its random draw.\<close>

definition hunt_stream ::
  "Settings \<Rightarrow> (Message \<times> real) list \<Rightarrow> Message HuntingPhase \<Rightarrow> Message HuntingPhase" where
  "hunt_stream st ms ph = fold (\<lambda>(m, draw) ph. fst (hunt_for_messages st ph m draw)) ms ph"

section \<open>\<^verbatim>\<open>ReactionPhase\<close>\<close>

text \<open>
  An emoji is known by its id, a guild member by the user id. A raw reaction event
  carries the reactor's id, the id of the message reacted to, the id of the emoji
  (\<^verbatim>\<open>None\<close> for a unicode emoji) and, when the platform sent it, the member.
\<close>

datatype Emoji = Emoji (emoji_ident: int)

datatype Member = Member (member_ident: int)


record ReactionPoints =
  member :: Member
  points :: int

record 'r ReactionPhase = "'r NinjaPhase" +
  bot_user_id :: int
  target :: Message
  fallback_emoji :: "Emoji option"
  new_emoji :: "Emoji option"
  wait_task :: task
  rewarded_users :: "(int \<times> ReactionPoints) list"
  used_emoji :: "Emoji option"

text \<open>
  \<^verbatim>\<open>ReactionPhase.__init__\<close>. The constructor reads \<^verbatim>\<open>message.guild\<close>, which raises
  when the message is \<^verbatim>\<open>None\<close>.
\<close>

definition ReactionPhase_init ::
  "int \<Rightarrow> Message option \<Rightarrow> Emoji option \<Rightarrow> real \<Rightarrow> error + unit ReactionPhase" where
  "ReactionPhase_init bot_id message fallback now =
     (case message of
        None \<Rightarrow> Inl AttributeError
      | Some m \<Rightarrow>
          Inr (NinjaPhase.extend (NinjaPhase_init now)
                 (ReactionPhase.fields bot_id m fallback None TaskPending [] None)))"




text \<open>
  \<^verbatim>\<open>ReactionPhase.time_remaining\<close> at wall-clock time \<open>now\<close>:
  \<^verbatim>\<open>max(TIMEOUT - time_passed, 0.0)\<close>.
\<close>

definition reaction_time_remaining :: "Game \<Rightarrow> unit ReactionPhase \<Rightarrow> real \<Rightarrow> real" where
  "reaction_time_remaining cfg ph now =
     (let time_passed = now - timestamp ph
      in max (real_of_int (reaction_timeout cfg) - time_passed) 0)"

definition reaction_cancel :: "unit ReactionPhase \<Rightarrow> unit ReactionPhase" where
  "reaction_cancel ph =
     ph\<lparr>wait_task := (if wait_task ph = TaskPending then TaskCancelled else wait_task ph),
        cancelled := True\<rparr>"

text \<open>
  The module constant \<^verbatim>\<open>SECONDS_PER_POINT = TIMEOUT / MAX_POINTS\<close> (a float division,
  which raises on a zero divisor) and \<^verbatim>\<open>int()\<close> of a float, which truncates towards
  zero. Floats are modelled as reals: rounding is not part of the model.
\<close>

definition SECONDS_PER_POINT :: "Game \<Rightarrow> error + real" where
  "SECONDS_PER_POINT cfg =
     (if max_points cfg = 0 then Inl ZeroDivisionError
      else Inr (real_of_int (reaction_timeout cfg) / real_of_int (max_points cfg)))"

definition py_int :: "real \<Rightarrow> int" where
  "py_int x = (if 0 \<le> x then \<lfloor>x\<rfloor> else \<lceil>x\<rceil>)"

text \<open>
  \<^verbatim>\<open>_calculate_win_points\<close> at wall-clock time \<open>now\<close>:
  \<^verbatim>\<open>
    lost_points = int((TIMEOUT - self.time_remaining) / SECONDS_PER_POINT)
    return max(MAX_POINTS - lost_points, 1)
  \<close>
\<close>

definition calculate_win_points :: "Game \<Rightarrow> unit ReactionPhase \<Rightarrow> real \<Rightarrow> error + int" where
  "calculate_win_points cfg ph now =
     (case SECONDS_PER_POINT cfg of
        Inl e \<Rightarrow> Inl e
      | Inr spp \<Rightarrow>
          if spp = 0 then Inl ZeroDivisionError
          else let lost_points =
                     py_int ((real_of_int (reaction_timeout cfg) -
                              reaction_time_remaining cfg ph now) / spp)
               in Inr (max (max_points cfg - lost_points) 1))"





section \<open>The cog: scores, leaderboard, game loop and commands (\<^verbatim>\<open>cog.py\<close>)\<close>

datatype GameState = NOT_RUNNING | SLEEPING | HUNTING | ACTIVE_REACTION

record LeaderboardEntry =
  rank :: int
  score :: int
  tied :: bool

text \<open>
  A \<^verbatim>\<open>RedisCache\<close> is held as the dict its \<^verbatim>\<open>to_dict()\<close> returns: an association list
  with one pair per key, in the dict's iteration order. The cache is a library outside the
  repository; its operations are modelled by what they do to that dict: \<open>set\<close>
  stores, \<open>delete\<close> removes a key, \<open>clear\<close> removes all, \<open>increment\<close> adds
  to the stored number, a missing key counting as 0.
\<close>

definition cache_set :: "'k \<Rightarrow> 'v \<Rightarrow> ('k \<times> 'v) list \<Rightarrow> ('k \<times> 'v) list" where
  "cache_set k v c = AList.update k v c"

definition cache_delete :: "'k \<Rightarrow> ('k \<times> 'v) list \<Rightarrow> ('k \<times> 'v) list" where
  "cache_delete k c = AList.delete k c"

definition cache_clear :: "('k \<times> 'v) list \<Rightarrow> ('k \<times> 'v) list" where
  "cache_clear c = []"

definition cache_increment :: "'k \<Rightarrow> int \<Rightarrow> ('k \<times> int) list \<Rightarrow> ('k \<times> int) list" where
  "cache_increment k amount c =
     (case map_of c k of
        None \<Rightarrow> AList.update k amount c
      | Some v \<Rightarrow> AList.update k (v + amount) c)"

text \<open>
  \<^verbatim>\<open>itertools.groupby\<close>: maximal runs of consecutive elements with equal key, each
  with its key.
\<close>

function groupby :: "('a \<Rightarrow> 'k) \<Rightarrow> 'a list \<Rightarrow> ('k \<times> 'a list) list" where
  "groupby key [] = []"
| "groupby key (x # xs) =
     (key x, x # takeWhile (\<lambda>y. key y = key x) xs) #
     groupby key (dropWhile (\<lambda>y. key y = key x) xs)"
  by pat_completeness auto
termination
  by (relation "measure (\<lambda>(key, xs). length xs)")
     (auto simp: length_dropWhile_le less_Suc_eq_le)

text \<open>
  \<^verbatim>\<open>_get_sorted_leaderboard\<close> on the dict \<open>scores\<close> read from the scoreboard.
  \<^verbatim>\<open>sorted(scores.items(), key=itemgetter(1), reverse=True)\<close> is a stable sort by
  descending score (entries of equal score keep their order): \<open>sort_key\<close> on the
  negated score. The outer loop runs over the groups with the rank counter, the inner
  loop assigns into the leaderboard dict.
\<close>

definition get_sorted_leaderboard :: "(int \<times> int) list \<Rightarrow> (int \<times> LeaderboardEntry) list" where
  "get_sorted_leaderboard scores =
     (if scores = [] then []
      else let sorted_scores = sort_key (\<lambda>item. - snd item) scores;
               grouped_scores = groupby snd sorted_scores
           in fst (fold (\<lambda>(_, group) (leaderboard, rank).
                           (fold (\<lambda>(member_id, score) leaderboard.
                                    AList.update member_id
                                      \<lparr>rank = rank, score = score, tied = (length group > 1)\<rparr>
                                      leaderboard)
                                 group leaderboard,
                            rank + int (length group)))
                        grouped_scores ([], 1)))"

text \<open>
  The ranking in the words of the specification: every member of a group gets the
  current rank counter and \<open>tied = (group size > 1)\<close>; the counter advances by the
  group's size.
\<close>

fun assign_ranks :: "int \<Rightarrow> (int \<times> int) list list \<Rightarrow> (int \<times> LeaderboardEntry) list" where
  "assign_ranks r [] = []"
| "assign_ranks r (g # gs) =
     map (\<lambda>(m, s). (m, \<lparr>rank = r, score = s, tied = (length g > 1)\<rparr>)) g @
     assign_ranks (r + int (length g)) gs"

definition spec_leaderboard :: "(int \<times> int) list \<Rightarrow> (int \<times> LeaderboardEntry) list" where
  "spec_leaderboard scores =
     assign_ranks 1 (map snd (groupby snd (sort_key (\<lambda>item. - snd item) scores)))"

text \<open>
  The state of the \<^verbatim>\<open>NinjaHunt\<close> cog: the running flag, whether the game task is
  done, the game state, the three caches the claims are about (the scoreboard, the
  blocked users, and of the config cache the \<^verbatim>\<open>"running"\<close> key and the stored
  permission lists), the bot's own user id, the emojis fetched when the guild is ready,
  whether the summary channel is known, and the embeds sent to it.
\<close>

datatype Embed =
  UndetectedAppearance Channel
| DetectedAppearance "(int \<times> ReactionPoints) list" Channel

record NinjaHunt =
  running :: bool
  game_task_done :: bool
  state :: GameState
  scoreboard :: "(int \<times> int) list"
  blocked_users :: "(int \<times> string) list"
  config_running :: "bool option"
  config :: "(string \<times> string) list"
  bot_user :: int
  cog_fallback_emoji :: "Emoji option"
  cog_emoji_confirm :: Emoji
  cog_emoji_deny :: Emoji
  summary_channel_ready :: bool
  sent_embeds :: "Embed list"

text \<open>\<^verbatim>\<open>_filter_blocked_users\<close>, \<^verbatim>\<open>_process_scores\<close>, \<^verbatim>\<open>_send_embed\<close>, \<^verbatim>\<open>_process_results\<close>.\<close>

definition filter_blocked_users ::
  "NinjaHunt \<Rightarrow> (int \<times> ReactionPoints) list \<Rightarrow> (int \<times> ReactionPoints) list" where
  "filter_blocked_users g scores =
     filter (\<lambda>(user, score). user \<notin> fst ` set (blocked_users g)) scores"

definition process_scores :: "NinjaHunt \<Rightarrow> (int \<times> ReactionPoints) list \<Rightarrow> NinjaHunt" where
  "process_scores g scores =
     g\<lparr>scoreboard :=
         fold (\<lambda>(member_id, score) sb. cache_increment member_id (points score) sb)
              scores (scoreboard g)\<rparr>"

definition send_embed :: "NinjaHunt \<Rightarrow> (int \<times> ReactionPoints) list \<Rightarrow> Channel \<Rightarrow> NinjaHunt" where
  "send_embed g scores target_channel =
     (if \<not> summary_channel_ready g then g
      else let embed = (if scores = [] then UndetectedAppearance target_channel
                        else DetectedAppearance scores target_channel)
           in g\<lparr>sent_embeds := sent_embeds g @ [embed]\<rparr>)"

definition process_results :: "NinjaHunt \<Rightarrow> (int \<times> ReactionPoints) list \<Rightarrow> Channel \<Rightarrow> NinjaHunt" where
  "process_results g scores target_channel =
     (let scores = filter_blocked_users g scores;
          g = process_scores g scores
      in send_embed g scores target_channel)"

subsection \<open>The admin commands that start and stop the game\<close>

text \<open>
  \<^verbatim>\<open>game_stop\<close> clears the running flag, cancels the game task, stores the flag and
  resets the state. The cancellation of the task is what the phase being awaited sees
  (the \<open>task_cancelled\<close> argument of \<open>run\<close>).
\<close>

definition game_stop :: "NinjaHunt \<Rightarrow> NinjaHunt" where
  "game_stop g =
     (if \<not> running g \<and> game_task_done g then g
      else g\<lparr>running := False, config_running := Some False, state := NOT_RUNNING\<rparr>)"

definition game_start :: "NinjaHunt \<Rightarrow> NinjaHunt" where
  "game_start g =
     (if running g \<and> \<not> game_task_done g then g
      else g\<lparr>running := True, game_task_done := False, config_running := Some True\<rparr>)"

subsection \<open>One cycle of the game loop\<close>








subsection \<open>The commands\<close>

text \<open>
  \<^verbatim>\<open>str.split(sep)\<close> for a one-character separator and \<^verbatim>\<open>sep.join\<close>.
\<close>

fun split_on :: "char \<Rightarrow> string \<Rightarrow> string list" where
  "split_on c [] = [[]]"
| "split_on c (x # xs) =
     (if x = c then [] # split_on c xs
      else case split_on c xs of
             w # ws \<Rightarrow> (x # w) # ws
           | [] \<Rightarrow> [[x]])"

fun join :: "string \<Rightarrow> string list \<Rightarrow> string" where
  "join sep [] = []"
| "join sep [w] = w"
| "join sep (w # ws) = w @ sep @ join sep ws"

text \<open>
  The commands of the cog. \<open>GameClear\<close> carries what the confirmation dialog
  returned: \<^verbatim>\<open>None\<close> after the timeout, else the emoji of the reaction that passed
  the dialog's check. The permission commands carry the list name and the snowflake.
\<close>

datatype command =
  Help | NinjaGroup | PersonalScore int | LeaderboardCmd | AdminGroup
| Block int | Unblock int | Blocked
| GameGroup | GameStatus | GameStop | GameStart | GameClear "Emoji option"
| PermissionsGroup | AddPermission string string | RemovePermission string string
| ListPermission string

text \<open>
  The effect of a command on the cog. \<open>sync_allowdeny\<close> stands for
  \<^verbatim>\<open>_sync_allowdeny\<close>: it maps the stored permission lists to what they are after the
  synchronisation, or to the exception it raises (the permission sets in the settings,
  which it also writes, are not part of the cog). The validation in the permission
  commands calls a coroutine function without awaiting it, so its result is always true
  and the early exit is never taken. A command that raises leaves the cog with the writes
  made before the exception.
\<close>

definition run_command ::
  "((string \<times> string) list \<Rightarrow> error + (string \<times> string) list) \<Rightarrow> command \<Rightarrow> NinjaHunt \<Rightarrow> NinjaHunt"
  where
  "run_command sync_allowdeny c g =
     (case c of
        Help \<Rightarrow> g
      | NinjaGroup \<Rightarrow> g
      | PersonalScore author \<Rightarrow> g
      | LeaderboardCmd \<Rightarrow> g
      | AdminGroup \<Rightarrow> g
      | Block user \<Rightarrow>
          g\<lparr>blocked_users := cache_set user [] (blocked_users g),
            scoreboard := cache_delete user (scoreboard g)\<rparr>
      | Unblock user \<Rightarrow> g\<lparr>blocked_users := cache_delete user (blocked_users g)\<rparr>
      | Blocked \<Rightarrow> g
      | GameGroup \<Rightarrow> g
      | GameStatus \<Rightarrow> g
      | GameStop \<Rightarrow> game_stop g
      | GameStart \<Rightarrow> game_start g
      | GameClear answer \<Rightarrow>
          (case answer of
             None \<Rightarrow> g
           | Some emoji \<Rightarrow>
               if emoji = cog_emoji_deny g then g
               else if emoji = cog_emoji_confirm g
                 then g\<lparr>scoreboard := cache_clear (scoreboard g)\<rparr>
               else g)
      | PermissionsGroup \<Rightarrow> g
      | AddPermission list_type snowflake \<Rightarrow>
          (case sync_allowdeny (config g) of
             Inl e \<Rightarrow> g
           | Inr c1 \<Rightarrow>
               (let cached_permissions =
                      (case map_of c1 list_type of None \<Rightarrow> ''None'' | Some p \<Rightarrow> p);
                    new_permissions = cached_permissions @ '','' @ snowflake;
                    c2 = cache_set list_type new_permissions c1
                in case sync_allowdeny c2 of
                     Inl e \<Rightarrow> g\<lparr>config := c2\<rparr>
                   | Inr c3 \<Rightarrow> g\<lparr>config := c3\<rparr>))
      | RemovePermission list_type snowflake \<Rightarrow>
          (case sync_allowdeny (config g) of
             Inl e \<Rightarrow> g
           | Inr c1 \<Rightarrow>
               (case map_of c1 list_type of
                  None \<Rightarrow> g\<lparr>config := c1\<rparr>
                | Some cached_permissions \<Rightarrow>
                    (let new_permissions =
                           filter (\<lambda>e. e \<noteq> [] \<and> e \<noteq> snowflake)
                             (split_on CHR '','' cached_permissions);
                         c2 = cache_set list_type (join '','' new_permissions) c1
                     in case sync_allowdeny c2 of
                          Inl e \<Rightarrow> g\<lparr>config := c2\<rparr>
                        | Inr c3 \<Rightarrow> g\<lparr>config := c3\<rparr>)))
      | ListPermission list_type \<Rightarrow>
          (case sync_allowdeny (config g) of
             Inl e \<Rightarrow> g
           | Inr c1 \<Rightarrow> g\<lparr>config := c1\<rparr>))"

text \<open>
  Every operation that acts on the cog: a command, or the score aggregation of a round
  (\<^verbatim>\<open>_process_results\<close> on the round's points and the channel of the hunted message).
\<close>

datatype operation = Command command | Aggregate "(int \<times> ReactionPoints) list" Channel

definition apply_operation ::
  "((string \<times> string) list \<Rightarrow> error + (string \<times> string) list) \<Rightarrow> operation \<Rightarrow> NinjaHunt \<Rightarrow> NinjaHunt"
  where
  "apply_operation sync_allowdeny op g =
     (case op of
        Command c \<Rightarrow> run_command sync_allowdeny c g
      | Aggregate scores target_channel \<Rightarrow> process_results g scores target_channel)"

text \<open>A configuration used in the examples below.\<close>

definition example_game :: Game where
  "example_game =
     \<lparr>public_only = True, cooldown = 5, max_time_jitter = 0, probability_multiplier = 1,
      max_points = 10, reaction_timeout = 60, channel_scalars = [], auto_start = True\<rparr>"

definition example_message :: Message where
  "example_message =
     \<lparr>message_id = 100, message_guild = Some 1, author_bot = False,
      channel = \<lparr>channel_id = 10, category_id = Some 20, default_read_messages = True,
                 default_send_messages = True\<rparr>\<rparr>"


definition example_settings :: Settings where
  "example_settings =
     \<lparr>permissions =
        \<lparr>categories = \<lparr>allow = {StrElem ''*''}, deny = {}\<rparr>,
         channels = \<lparr>allow = {IntElem 10}, deny = {IntElem 11}\<rparr>\<rparr>,
      game = example_game\<lparr>max_time_jitter := 4\<rparr>,
      guild =
        \<lparr>admins_id = 2, moderators_id = 3, helpers_id = 4, guild_id = 1, emoji_id = 5,
         emoji_full = ''ninja'', summary_channel = 6, bypass_roles = [], commands_channels = [],
         emoji_confirm = 8, emoji_deny = 9\<rparr>\<rparr>"

text \<open>
  The example message in a channel that a member with only the default role cannot read.
\<close>

definition hidden_message :: Message where
  "hidden_message =
     example_message\<lparr>channel := (channel example_message)\<lparr>default_read_messages := False\<rparr>\<rparr>"


text \<open>
  A cog in which the game is running, member 42 has one point and member 7 has three,
  nobody is blocked, and no fallback emoji is known.
\<close>

definition example_cog :: NinjaHunt where
  "example_cog =
     \<lparr>running = True, game_task_done = False, state = NOT_RUNNING,
      scoreboard = [(42, 1), (7, 3)], blocked_users = [], config_running = Some True,
      config = [], bot_user = 999, cog_fallback_emoji = None,
      cog_emoji_confirm = Emoji 8, cog_emoji_deny = Emoji 9,
      summary_channel_ready = True, sent_embeds = []\<rparr>"



text \<open>
  The leaderboard entry of a member with score \<open>s\<close> among the scores \<open>xs\<close>, for a
  rank counter that starts at \<open>r\<close>: the rank is \<open>r\<close> plus the number of strictly
  higher scores, and the entry is tied when more than one member has the score \<open>s\<close>.
\<close>

definition entry_of :: "int \<Rightarrow> (int \<times> int) list \<Rightarrow> int \<times> int \<Rightarrow> int \<times> LeaderboardEntry" where
  "entry_of r xs = (\<lambda>(m, s).
     (m, \<lparr>rank = r + int (length (filter (\<lambda>(m', s'). s < s') xs)), score = s,
          tied = (1 < length (filter (\<lambda>(m', s'). s' = s) xs))\<rparr>))"

section \<open>Sleeping: duration and the empty jitter range\<close>

lemma randint_range:
  assumes "randint entropy a b = Inr r"
  shows "a \<le> r \<and> r \<le> b"
proof -
  have w: "0 < b + 1 - a" and r: "r = a + int entropy mod (b + 1 - a)"
    using assms by (auto simp: randint_def randrange_def randbelow_def Let_def split: if_splits)
  have "0 \<le> int entropy mod (b + 1 - a)" "int entropy mod (b + 1 - a) < b + 1 - a"
    using w by simp_all
  with r show ?thesis by linarith
qed

lemma randint_empty: "b < a \<Longrightarrow> randint entropy a b = Inl ValueError"
  by (simp add: randint_def randrange_def)

lemma randint_nonempty:
  "a \<le> b \<Longrightarrow> randint entropy a b = Inr (a + int entropy mod (b + 1 - a))"
  by (simp add: randint_def randrange_def randbelow_def)

lemma SleepingPhase_init_ok:
  assumes "1 \<le> max_time_jitter cfg"
  shows "SleepingPhase_init cfg entropy now =
           Inr (NinjaPhase.extend (NinjaPhase_init now)
                  (SleepingPhase.fields
                     (cooldown cfg + (1 + int entropy mod max_time_jitter cfg)) TaskPending))"
  using assms by (simp add: SleepingPhase_init_def randint_nonempty)

lemma sleep_duration_init [simp]:
  "sleep_duration (NinjaPhase.extend (NinjaPhase_init now) (SleepingPhase.fields d t)) = d"
  by (simp add: NinjaPhase.extend_def NinjaPhase_init_def SleepingPhase.fields_def)

lemma timestamp_init [simp]:
  "timestamp (NinjaPhase.extend (NinjaPhase_init now) (SleepingPhase.fields d t)) = now"
  by (simp add: NinjaPhase.extend_def NinjaPhase_init_def SleepingPhase.fields_def)

text \<open>
  Claim C10. Constructing a \<^verbatim>\<open>SleepingPhase\<close> needs \<open>max_time_jitter \<ge> 1\<close>: with
  \<open>max_time_jitter \<le> 0\<close> the call \<^verbatim>\<open>random.randint(1, MAX_TIME_JITTER)\<close> is on an
  empty range, so the constructor raises \<open>ValueError\<close> whatever the random draw and
  the time, before the sleep task is scheduled; no phase value is produced.
\<close>

theorem SleepingPhase_init_nonpositive_jitter:
  "max_time_jitter cfg \<le> 0 \<Longrightarrow> SleepingPhase_init cfg entropy now = Inl ValueError"
  by (simp add: SleepingPhase_init_def randint_empty)

theorem SleepingPhase_init_nonpositive_jitter_witness:
  "max_time_jitter (example_game\<lparr>max_time_jitter := - 3\<rparr>) \<le> 0 \<and>
   SleepingPhase_init (example_game\<lparr>max_time_jitter := - 3\<rparr>) 7 0 = Inl ValueError"
  using SleepingPhase_init_nonpositive_jitter [of "example_game\<lparr>max_time_jitter := - 3\<rparr>" 7 0]
  by (simp add: example_game_def)

text \<open>
  Claim C9, as the code has it. For \<open>max_time_jitter \<ge> 1\<close> the constructor succeeds
  and the sleep duration is \<open>cooldown + j\<close> for the drawn \<open>j\<close> in
  \<open>[1, max_time_jitter]\<close>, hence lies in \<open>[cooldown + 1, cooldown + max_time_jitter]\<close>;
  the remaining time at construction is that duration (when it is not negative), and a
  sleep task started at the construction time wakes up exactly \<open>duration\<close> seconds
  later. (With \<open>max_time_jitter = 0\<close> there is no phase at all: see the
  counterexample below.)
\<close>

theorem SleepingPhase_duration:
  assumes "1 \<le> max_time_jitter cfg"
  shows "\<exists>ph. SleepingPhase_init cfg entropy now = Inr ph \<and>
           (\<exists>j. randint entropy 1 (max_time_jitter cfg) = Inr j \<and>
                sleep_duration ph = cooldown cfg + j) \<and>
           cooldown cfg + 1 \<le> sleep_duration ph \<and>
           sleep_duration ph \<le> cooldown cfg + max_time_jitter cfg \<and>
           sleep_time_remaining ph now = max (real_of_int (sleep_duration ph)) 0 \<and>
           fst (sleep ph now) = now + max (real_of_int (sleep_duration ph)) 0"
proof -
  let ?j = "1 + int entropy mod max_time_jitter cfg"
  have b: "0 \<le> int entropy mod max_time_jitter cfg"
          "int entropy mod max_time_jitter cfg < max_time_jitter cfg"
    using assms by simp_all
  have r: "randint entropy 1 (max_time_jitter cfg) = Inr ?j"
    using assms by (simp add: randint_nonempty)
  show ?thesis
    using b r
    by (simp add: SleepingPhase_init_ok [OF assms] sleep_time_remaining_def sleep_def Let_def)
qed

theorem SleepingPhase_duration_witness:
  "1 \<le> max_time_jitter (example_game\<lparr>max_time_jitter := 4\<rparr>) \<and>
   (\<exists>ph. SleepingPhase_init (example_game\<lparr>max_time_jitter := 4\<rparr>) 6 100 = Inr ph \<and>
      sleep_duration ph = 8 \<and> fst (sleep ph 100) = 108)"
  using SleepingPhase_duration [of "example_game\<lparr>max_time_jitter := 4\<rparr>" 6 100]
  by (auto simp: example_game_def randint_def randrange_def randbelow_def)

text \<open>
  The instance the claim closes with fails: with \<open>cooldown = 5\<close> and
  \<open>max_time_jitter = 0\<close> the constructor raises, so nothing resolves after 5 seconds.
\<close>

theorem SleepingPhase_cooldown5_jitter0_counterexample:
  "cooldown example_game = 5 \<and> max_time_jitter example_game = 0 \<and>
   SleepingPhase_init example_game 0 0 = Inl ValueError"
  by (simp add: example_game_def SleepingPhase_init_def randint_def randrange_def)

section \<open>Reaction scoring\<close>







section \<open>The hunting filter\<close>

text \<open>
  Claim C3, as the code has it. A message is eligible (not ignored) exactly when it comes
  from the configured guild, its author is not a bot, the channel is readable and
  writable for the default role if the public-only setting is on (this check comes first
  and also applies to channels in the allow set), the channel is not in the channel deny
  set, and either the channel is in the channel allow set, or the category is not in the
  category deny set and is in the category allow set. Everything else is ignored.
\<close>

theorem ignored_message_iff:
  "\<not> ignored_message st m \<longleftrightarrow>
     message_guild m = Some (guild_id (guild st)) \<and>
     \<not> author_bot m \<and>
     (public_only (game st) \<longrightarrow>
        default_read_messages (channel m) \<and> default_send_messages (channel m)) \<and>
     \<not> contains (deny (channels (permissions st))) (Some (channel_id (channel m))) \<and>
     (contains (allow (channels (permissions st))) (Some (channel_id (channel m))) \<or>
      \<not> contains (deny (categories (permissions st))) (category_id (channel m)) \<and>
      contains (allow (categories (permissions st))) (category_id (channel m)))"
  by (auto simp: ignored_message_def)

theorem ignored_message_iff_witness:
  "\<not> ignored_message example_settings example_message \<and>
   public_only (game example_settings) \<and>
   default_read_messages (channel example_message) \<and>
   default_send_messages (channel example_message)"
  using ignored_message_iff [of example_settings example_message]
  by (simp add: example_settings_def example_message_def example_game_def contains_def
        wildcard_set_def)

text \<open>
  A channel in the allow set is not always eligible: with the public-only setting on, a
  message in an allowed channel that the default role cannot read is ignored.
\<close>

theorem ignored_message_allowed_channel_counterexample:
  "message_guild hidden_message = Some (guild_id (guild example_settings)) \<and>
   \<not> author_bot hidden_message \<and>
   \<not> contains (deny (channels (permissions example_settings)))
        (Some (channel_id (channel hidden_message))) \<and>
   \<not> contains (deny (categories (permissions example_settings)))
        (category_id (channel hidden_message)) \<and>
   contains (allow (channels (permissions example_settings)))
        (Some (channel_id (channel hidden_message))) \<and>
   ignored_message example_settings hidden_message"
  by (simp add: example_settings_def hidden_message_def example_message_def example_game_def
        contains_def wildcard_set_def ignored_message_def)

section \<open>The phase life cycle\<close>

lemma run_cancelled:
  "run c True ph = Some (finish (c ph), None)"
  by (simp add: run_def)

lemma run_resolved:
  "future ph = Result v \<Longrightarrow> run c False ph = Some (finish ph, Some v)"
  by (simp add: run_def)

lemma finish_flags [simp]:
  "finished (finish ph)" "cancelled (finish ph) = cancelled ph" "\<not> active (finish ph)"
  by (simp_all add: finish_def active_def)

lemma sleeping_cancel_flags [simp]:
  "cancelled (sleeping_cancel sp)" "finished (sleeping_cancel sp) = finished sp"
  by (simp_all add: sleeping_cancel_def)

lemma hunting_cancel_flags [simp]:
  "cancelled (hunting_cancel hp)" "finished (hunting_cancel hp) = finished hp"
  by (simp_all add: hunting_cancel_def)

lemma reaction_cancel_flags [simp]:
  "cancelled (reaction_cancel rp)" "finished (reaction_cancel rp) = finished rp"
  by (simp_all add: reaction_cancel_def)

lemma hunting_finish_eq: "hunting_finish hp = finish hp"
  by (simp add: hunting_finish_def finish_def)

lemma active_init:
  "active (NinjaPhase.extend (NinjaPhase_init now) x)"
  by (simp add: active_def NinjaPhase_init_def NinjaPhase.extend_def)

text \<open>
  Claim C4, as the code has it. A phase is active iff neither flag is set, and every
  phase starts active. A call of \<^verbatim>\<open>run()\<close> that is cancelled returns \<^verbatim>\<open>None\<close> and
  leaves the phase with both flags set, cancelled and finished (the \<^verbatim>\<open>finally\<close>
  clause marks every phase finished); a call that returns the future's result leaves it
  finished with the cancelled flag as it was. In both cases the phase is no longer
  active, and no flag is ever cleared.
\<close>

theorem phase_lifecycle:
  "(active ph \<longleftrightarrow> \<not> finished ph \<and> \<not> cancelled ph) \<and>
   (SleepingPhase_init cfg entropy now = Inr sp0 \<longrightarrow> active sp0) \<and>
   active (HuntingPhase_init now) \<and>
   (ReactionPhase_init bot msg fallback now = Inr rp0 \<longrightarrow> active rp0) \<and>
   (\<exists>sp'. run sleeping_cancel True sp = Some (sp', None) \<and>
          cancelled sp' \<and> finished sp' \<and> \<not> active sp') \<and>
   (\<exists>hp'. run hunting_cancel True hp = Some (hp', None) \<and>
          cancelled hp' \<and> finished hp' \<and> \<not> active hp') \<and>
   (\<exists>rp'. run reaction_cancel True rp = Some (rp', None) \<and>
          cancelled rp' \<and> finished rp' \<and> \<not> active rp') \<and>
   (future sp = Result u \<longrightarrow>
      (\<exists>sp'. run sleeping_cancel False sp = Some (sp', Some u) \<and>
             finished sp' \<and> cancelled sp' = cancelled sp \<and> \<not> active sp')) \<and>
   (future hp = Result m \<longrightarrow>
      (\<exists>hp'. run hunting_cancel False hp = Some (hp', Some m) \<and>
             finished hp' \<and> cancelled hp' = cancelled hp \<and> \<not> active hp')) \<and>
   (future rp = Result u \<longrightarrow>
      (\<exists>rp'. run reaction_cancel False rp = Some (rp', Some u) \<and>
             finished rp' \<and> cancelled rp' = cancelled rp \<and> \<not> active rp'))"
proof -
  have a: "active ph \<longleftrightarrow> \<not> finished ph \<and> \<not> cancelled ph"
    by (simp add: active_def)
  have s0: "SleepingPhase_init cfg entropy now = Inr sp0 \<longrightarrow> active sp0"
    by (auto simp: SleepingPhase_init_def active_init split: sum.splits)
  have h0: "active (HuntingPhase_init now)"
    by (simp add: HuntingPhase_init_def active_init)
  have r0: "ReactionPhase_init bot msg fallback now = Inr rp0 \<longrightarrow> active rp0"
    by (auto simp: ReactionPhase_init_def active_init split: option.splits)
  have sc: "\<exists>sp'. run sleeping_cancel True sp = Some (sp', None) \<and>
          cancelled sp' \<and> finished sp' \<and> \<not> active sp'"
    by (simp add: run_cancelled)
  have hc: "\<exists>hp'. run hunting_cancel True hp = Some (hp', None) \<and>
          cancelled hp' \<and> finished hp' \<and> \<not> active hp'"
    by (simp add: run_cancelled)
  have rc: "\<exists>rp'. run reaction_cancel True rp = Some (rp', None) \<and>
          cancelled rp' \<and> finished rp' \<and> \<not> active rp'"
    by (simp add: run_cancelled)
  have sr: "future sp = Result u \<longrightarrow>
      (\<exists>sp'. run sleeping_cancel False sp = Some (sp', Some u) \<and>
             finished sp' \<and> cancelled sp' = cancelled sp \<and> \<not> active sp')"
    by (simp add: run_resolved)
  have hr: "future hp = Result m \<longrightarrow>
      (\<exists>hp'. run hunting_cancel False hp = Some (hp', Some m) \<and>
             finished hp' \<and> cancelled hp' = cancelled hp \<and> \<not> active hp')"
    by (simp add: run_resolved)
  have rr: "future rp = Result u \<longrightarrow>
      (\<exists>rp'. run reaction_cancel False rp = Some (rp', Some u) \<and>
             finished rp' \<and> cancelled rp' = cancelled rp \<and> \<not> active rp')"
    by (simp add: run_resolved)
  from a s0 h0 r0 sc hc rc sr hr rr show ?thesis by blast
qed

theorem phase_lifecycle_witness:
  "active (HuntingPhase_init 0) \<and>
   (\<exists>hp'. run hunting_cancel True (HuntingPhase_init 0) = Some (hp', None) \<and>
          cancelled hp' \<and> finished hp' \<and> \<not> active hp') \<and>
   (\<exists>hp'. run hunting_cancel False ((HuntingPhase_init 0)\<lparr>future := Result example_message\<rparr>)
            = Some (hp', Some example_message) \<and>
          finished hp' \<and> \<not> cancelled hp' \<and> \<not> active hp')"
proof -
  have f: "future ((HuntingPhase_init 0)\<lparr>future := Result example_message\<rparr>)
             = Result example_message"
    by simp
  have c: "\<not> cancelled ((HuntingPhase_init 0)\<lparr>future := Result example_message\<rparr>)"
    by (simp add: HuntingPhase_init_def NinjaPhase.extend_def NinjaPhase_init_def)
  note A = phase_lifecycle [where now = 0 and hp = "HuntingPhase_init 0"]
  note B = phase_lifecycle [where
      hp = "(HuntingPhase_init 0)\<lparr>future := Result example_message\<rparr>" and m = example_message]
  have 1: "active (HuntingPhase_init 0)"
    by (rule A [THEN conjunct2, THEN conjunct2, THEN conjunct1])
  have 2: "\<exists>hp'. run hunting_cancel True (HuntingPhase_init 0) = Some (hp', None) \<and>
          cancelled hp' \<and> finished hp' \<and> \<not> active hp'"
    by (rule A [THEN conjunct2, THEN conjunct2, THEN conjunct2, THEN conjunct2, THEN conjunct2,
          THEN conjunct1])
  have 3: "\<exists>hp'. run hunting_cancel False ((HuntingPhase_init 0)\<lparr>future := Result example_message\<rparr>)
            = Some (hp', Some example_message) \<and>
          finished hp' \<and>
          cancelled hp' = cancelled ((HuntingPhase_init 0)\<lparr>future := Result example_message\<rparr>) \<and>
          \<not> active hp'"
    by (rule B [THEN conjunct2, THEN conjunct2, THEN conjunct2, THEN conjunct2, THEN conjunct2,
          THEN conjunct2, THEN conjunct2, THEN conjunct2, THEN conjunct1, THEN mp, OF f])
  from 3 c have 4: "\<exists>hp'. run hunting_cancel False
            ((HuntingPhase_init 0)\<lparr>future := Result example_message\<rparr>)
            = Some (hp', Some example_message) \<and>
          finished hp' \<and> \<not> cancelled hp' \<and> \<not> active hp'"
    by auto
  from 1 2 4 show ?thesis by blast
qed

text \<open>
  A cancelled run does not end "cancelled and not finished": both flags are set.
\<close>

theorem run_cancelled_counterexample:
  "run hunting_cancel True (HuntingPhase_init 0) \<noteq> None \<and>
   cancelled (fst (the (run hunting_cancel True (HuntingPhase_init 0)))) \<and>
   finished (fst (the (run hunting_cancel True (HuntingPhase_init 0))))"
  by (simp add: run_def finish_def hunting_cancel_def)

section \<open>The hunt: counter and selection\<close>

lemma ninja_probability_eq:
  "ninja_probability ph =
     (ph\<lparr>probability := probability ph + 1\<rparr>, min (real (probability ph) / 100) 1)"
  by (simp add: ninja_probability_def Let_def)

lemma hunt_ignored:
  "\<not> active ph \<or> ignored_message st m \<Longrightarrow> hunt_for_messages st ph m draw = (ph, Ignored)"
  by (auto simp: hunt_for_messages_def)

lemma hunt_flags [simp]:
  "cancelled (fst (hunt_for_messages st ph m draw)) = cancelled ph"
  "finished (fst (hunt_for_messages st ph m draw)) = finished ph"
  by (auto simp: hunt_for_messages_def ninja_probability_eq set_result_def
           split: sum.splits future.splits)

lemma hunt_active [simp]:
  "active (fst (hunt_for_messages st ph m draw)) = active ph"
  by (simp add: active_def)

lemma hunt_counter:
  "probability (fst (hunt_for_messages st ph m draw)) =
     (if active ph \<and> \<not> ignored_message st m then probability ph + 1 else probability ph)"
  by (auto simp: hunt_for_messages_def ninja_probability_eq set_result_def
           split: sum.splits future.splits)

lemma hunt_outcome:
  assumes "active ph" "\<not> ignored_message st m"
  shows "snd (hunt_for_messages st ph m draw) =
     (if draw > real_of_int (probability_multiplier (game st)) *
                  min (real (probability ph) / 100) 1 then NotLucky
      else if future ph = Pending then Ducked else Failed InvalidStateError)"
  using assms
  by (auto simp: hunt_for_messages_def ninja_probability_eq set_result_def
           split: sum.splits future.splits)

lemma hunt_ducked_future:
  assumes "active ph" "\<not> ignored_message st m" "future ph = Pending"
    "draw \<le> real_of_int (probability_multiplier (game st)) * min (real (probability ph) / 100) 1"
  shows "future (fst (hunt_for_messages st ph m draw)) = Result m"
  using assms
  by (auto simp: hunt_for_messages_def ninja_probability_eq set_result_def
           split: sum.splits future.splits)

lemma hunt_stream_counter:
  "active ph \<Longrightarrow>
   probability (hunt_stream st ms ph) =
     probability ph + length (filter (\<lambda>(m, draw). \<not> ignored_message st m) ms)"
proof (induction ms arbitrary: ph)
  case Nil
  then show ?case by (simp add: hunt_stream_def)
next
  case (Cons a ms)
  obtain m d where a: "a = (m, d)" by (cases a)
  have s: "hunt_stream st ((m, d) # ms) ph =
             hunt_stream st ms (fst (hunt_for_messages st ph m d))"
    by (simp add: hunt_stream_def)
  have "active (fst (hunt_for_messages st ph m d))" using Cons.prems by simp
  from Cons.IH [OF this] show ?case
    using Cons.prems by (simp add: s a hunt_counter)
qed

lemma capped_mono:
  "k \<le> k' \<Longrightarrow> min (real k / 100) 1 \<le> min (real k' / 100) 1"
  by (simp add: min_def) 

lemma selected_mono:
  fixes M :: real and u :: real
  assumes "0 \<le> u" "k \<le> k'" "1 \<le> k" "u \<le> M * min (real k / 100) 1"
  shows "u \<le> M * min (real k' / 100) 1"
proof (cases "0 \<le> M")
  case True
  have "M * min (real k / 100) 1 \<le> M * min (real k' / 100) 1"
    using True capped_mono [OF assms(2)] by (rule mult_left_mono [rotated])
  with assms show ?thesis by linarith
next
  case False
  have "0 < min (real k / 100) 1" using assms(3) by (simp add: min_def)
  then have "M * min (real k / 100) 1 < 0" using False
    by (simp add: mult_neg_pos)
  with assms show ?thesis by linarith
qed

text \<open>
  Claim C8. The counter of a new hunting phase is 1. A message that is ignored, or that
  arrives when the phase is not active, leaves the phase as it is; every other message
  advances the counter by exactly one, so after a stream of messages the counter of an
  active phase is its old value plus the number of eligible messages. With counter
  \<open>k\<close> the message is selected (the handler goes on to resolve the future with it,
  and does resolve a pending future) iff the draw is at most
  \<open>multiplier * min (k / 100) 1\<close>. The capped factor is at most 1 and does not decrease
  with \<open>k\<close>; a draw of \<open>random.random()\<close> (in \<open>[0, 1)\<close>) that selects at \<open>k\<close>
  selects at every later \<open>k'\<close>, and clamping the threshold at 1 changes no outcome.
\<close>

theorem hunting_counter_and_probability:
  "probability (HuntingPhase_init now) = 1 \<and>
   (\<not> active ph \<or> ignored_message st m \<longrightarrow>
      hunt_for_messages st ph m draw = (ph, Ignored)) \<and>
   (active ph \<and> \<not> ignored_message st m \<longrightarrow>
      snd (ninja_probability ph) = min (real (probability ph) / 100) 1 \<and>
      probability (fst (hunt_for_messages st ph m draw)) = probability ph + 1 \<and>
      (snd (hunt_for_messages st ph m draw) \<noteq> NotLucky \<longleftrightarrow>
         draw \<le> real_of_int (probability_multiplier (game st)) *
                  min (real (probability ph) / 100) 1) \<and>
      (future ph = Pending \<longrightarrow>
         (snd (hunt_for_messages st ph m draw) = Ducked \<and>
          future (fst (hunt_for_messages st ph m draw)) = Result m
          \<longleftrightarrow>
          draw \<le> real_of_int (probability_multiplier (game st)) *
                   min (real (probability ph) / 100) 1))) \<and>
   (active ph \<longrightarrow>
      probability (hunt_stream st ms ph) =
        probability ph + length (filter (\<lambda>(m, draw). \<not> ignored_message st m) ms)) \<and>
   (k \<le> k' \<longrightarrow>
      min (real k / 100) 1 \<le> min (real k' / 100) 1 \<and> min (real k' / 100) (1::real) \<le> 1) \<and>
   (0 \<le> u \<and> 1 \<le> k \<and> k \<le> k' \<and>
    u \<le> real_of_int (probability_multiplier (game st)) * min (real k / 100) 1 \<longrightarrow>
      u \<le> real_of_int (probability_multiplier (game st)) * min (real k' / 100) 1) \<and>
   (u < 1 \<longrightarrow>
      (u \<le> real_of_int (probability_multiplier (game st)) * min (real k / 100) 1 \<longleftrightarrow>
       u \<le> min (real_of_int (probability_multiplier (game st)) * min (real k / 100) 1) 1))"
proof -
  let ?M = "real_of_int (probability_multiplier (game st))"
  have a: "probability (HuntingPhase_init now) = 1"
    by (simp add: HuntingPhase_init_def NinjaPhase.extend_def HuntingPhase.fields_def)
  have b: "\<not> active ph \<or> ignored_message st m \<longrightarrow>
      hunt_for_messages st ph m draw = (ph, Ignored)"
    using hunt_ignored by blast
  have c: "active ph \<and> \<not> ignored_message st m \<longrightarrow>
      snd (ninja_probability ph) = min (real (probability ph) / 100) 1 \<and>
      probability (fst (hunt_for_messages st ph m draw)) = probability ph + 1 \<and>
      (snd (hunt_for_messages st ph m draw) \<noteq> NotLucky \<longleftrightarrow>
         draw \<le> ?M * min (real (probability ph) / 100) 1) \<and>
      (future ph = Pending \<longrightarrow>
         (snd (hunt_for_messages st ph m draw) = Ducked \<and>
          future (fst (hunt_for_messages st ph m draw)) = Result m
          \<longleftrightarrow>
          draw \<le> ?M * min (real (probability ph) / 100) 1))"
  proof (intro impI, elim conjE)
    assume h: "active ph" "\<not> ignored_message st m"
    show "snd (ninja_probability ph) = min (real (probability ph) / 100) 1 \<and>
      probability (fst (hunt_for_messages st ph m draw)) = probability ph + 1 \<and>
      (snd (hunt_for_messages st ph m draw) \<noteq> NotLucky \<longleftrightarrow>
         draw \<le> ?M * min (real (probability ph) / 100) 1) \<and>
      (future ph = Pending \<longrightarrow>
         (snd (hunt_for_messages st ph m draw) = Ducked \<and>
          future (fst (hunt_for_messages st ph m draw)) = Result m
          \<longleftrightarrow>
          draw \<le> ?M * min (real (probability ph) / 100) 1))"
      using h hunt_ducked_future [OF h, of draw]
      by (auto simp: ninja_probability_eq hunt_counter hunt_outcome [OF h])
  qed
  have d: "active ph \<longrightarrow>
      probability (hunt_stream st ms ph) =
        probability ph + length (filter (\<lambda>(m, draw). \<not> ignored_message st m) ms)"
    using hunt_stream_counter by blast
  have e: "k \<le> k' \<longrightarrow>
      min (real k / 100) 1 \<le> min (real k' / 100) 1 \<and> min (real k' / 100) (1::real) \<le> 1"
    using capped_mono by simp
  have f: "0 \<le> u \<and> 1 \<le> k \<and> k \<le> k' \<and> u \<le> ?M * min (real k / 100) 1 \<longrightarrow>
      u \<le> ?M * min (real k' / 100) 1"
    using selected_mono by blast
  have g: "u < 1 \<longrightarrow>
      (u \<le> ?M * min (real k / 100) 1 \<longleftrightarrow> u \<le> min (?M * min (real k / 100) 1) 1)"
    by auto
  from a b c d e f g show ?thesis by blast
qed


theorem hunting_counter_and_probability_witness:
  "hunt_for_messages example_settings (HuntingPhase_init 0) hidden_message 0 =
     (HuntingPhase_init 0, Ignored) \<and>
   snd (hunt_for_messages example_settings (HuntingPhase_init 0) example_message (1 / 200)) =
     Ducked \<and>
   snd (hunt_for_messages example_settings (HuntingPhase_init 0) example_message (1 / 2)) =
     NotLucky \<and>
   probability
     (hunt_stream example_settings
        [(hidden_message, 0), (hidden_message, 0), (hidden_message, 0), (example_message, 1 / 2)]
        (HuntingPhase_init 0)) = 2"
proof -
  let ?ph = "HuntingPhase_init 0"
  have act: "active ?ph"
    by (simp add: HuntingPhase_init_def active_init)
  have pend: "future ?ph = Pending"
    by (simp add: HuntingPhase_init_def NinjaPhase.extend_def NinjaPhase_init_def)
  have k: "probability ?ph = 1"
    by (simp add: HuntingPhase_init_def NinjaPhase.extend_def HuntingPhase.fields_def)
  have mult: "probability_multiplier (game example_settings) = 1"
    by (simp add: example_settings_def example_game_def)
  have el: "\<not> ignored_message example_settings example_message"
    by (simp add: example_settings_def example_message_def example_game_def contains_def
          wildcard_set_def ignored_message_def)
  have ig: "ignored_message example_settings hidden_message"
    by (simp add: example_settings_def hidden_message_def example_message_def example_game_def
          contains_def wildcard_set_def ignored_message_def)
  have 1: "hunt_for_messages example_settings ?ph hidden_message 0 = (?ph, Ignored)"
    using hunting_counter_and_probability [where st = example_settings and ph = ?ph
        and m = hidden_message and draw = 0] ig by blast
  have 2: "snd (hunt_for_messages example_settings ?ph example_message (1 / 200)) = Ducked"
    using hunting_counter_and_probability [where st = example_settings and ph = ?ph
        and m = example_message and draw = "1 / 200"] act el pend
    by (simp add: k mult)
  have 3: "snd (hunt_for_messages example_settings ?ph example_message (1 / 2)) = NotLucky"
    using hunting_counter_and_probability [where st = example_settings and ph = ?ph
        and m = example_message and draw = "1 / 2"] act el
    by (simp add: k mult)
  have 4: "probability
     (hunt_stream example_settings
        [(hidden_message, 0), (hidden_message, 0), (hidden_message, 0), (example_message, 1 / 2)]
        ?ph) = 2"
    using hunting_counter_and_probability [where st = example_settings and ph = ?ph
        and ms = "[(hidden_message, 0), (hidden_message, 0), (hidden_message, 0),
                   (example_message, 1 / 2)]"] act el ig
    by (simp add: k)
  from 1 2 3 4 show ?thesis by blast
qed

section \<open>Reactions: the first qualifying reaction wins\<close>



lemma calculate_win_points_rewarded [simp]:
  "calculate_win_points cfg (ph\<lparr>rewarded_users := rw\<rparr>) t = calculate_win_points cfg ph t"
  by (simp add: calculate_win_points_def reaction_time_remaining_def split: sum.splits)










section \<open>What changes the scoreboard\<close>

lemma game_stop_scoreboard [simp]: "scoreboard (game_stop g) = scoreboard g"
  by (simp add: game_stop_def)

lemma game_start_scoreboard [simp]: "scoreboard (game_start g) = scoreboard g"
  by (simp add: game_start_def)

lemma send_embed_scoreboard [simp]: "scoreboard (send_embed g scores ch) = scoreboard g"
  by (simp add: send_embed_def Let_def)

lemma process_results_scoreboard:
  "scoreboard (process_results g scores ch) =
     fold (\<lambda>(member_id, score) sb. cache_increment member_id (points score) sb)
          (filter_blocked_users g scores) (scoreboard g)"
  by (simp add: process_results_def process_scores_def Let_def)

lemma run_command_scoreboard:
  "scoreboard (run_command sync_allowdeny c g) =
     (case c of
        Block user \<Rightarrow> cache_delete user (scoreboard g)
      | GameClear answer \<Rightarrow>
          (if answer = Some (cog_emoji_confirm g) \<and> cog_emoji_confirm g \<noteq> cog_emoji_deny g
           then [] else scoreboard g)
      | _ \<Rightarrow> scoreboard g)"
  by (cases c)
     (auto simp: run_command_def cache_clear_def Let_def split: option.splits sum.splits)

text \<open>
  Claim C7, as the code has it. Of all operations on the cog (the commands and the score
  aggregation of a round) exactly three can change the stored scores: the aggregation,
  which adds each unblocked member's round points; the block command, which deletes the
  blocked member's score; and a confirmed clear command, which deletes all scores. No
  other operation changes the scoreboard.
\<close>

theorem scoreboard_mutators:
  "(scoreboard (apply_operation sync_allowdeny opn g) \<noteq> scoreboard g \<longrightarrow>
      (\<exists>scores ch. opn = Aggregate scores ch) \<or>
      (\<exists>user. opn = Command (Block user)) \<or>
      (opn = Command (GameClear (Some (cog_emoji_confirm g))) \<and>
       cog_emoji_confirm g \<noteq> cog_emoji_deny g)) \<and>
   scoreboard (apply_operation sync_allowdeny (Aggregate scores ch) g) =
     fold (\<lambda>(member_id, score) sb. cache_increment member_id (points score) sb)
          (filter_blocked_users g scores) (scoreboard g) \<and>
   scoreboard (apply_operation sync_allowdeny (Command (Block user)) g) =
     cache_delete user (scoreboard g) \<and>
   (cog_emoji_confirm g \<noteq> cog_emoji_deny g \<longrightarrow>
      scoreboard (apply_operation sync_allowdeny
                    (Command (GameClear (Some (cog_emoji_confirm g)))) g) = [])"
proof -
  have a: "scoreboard (apply_operation sync_allowdeny opn g) \<noteq> scoreboard g \<longrightarrow>
      (\<exists>scores ch. opn = Aggregate scores ch) \<or>
      (\<exists>user. opn = Command (Block user)) \<or>
      (opn = Command (GameClear (Some (cog_emoji_confirm g))) \<and>
       cog_emoji_confirm g \<noteq> cog_emoji_deny g)"
  proof (cases opn)
    case (Command c)
    then show ?thesis
      by (cases c) (auto simp: apply_operation_def run_command_scoreboard split: if_splits)
  next
    case (Aggregate scores ch)
    then show ?thesis by simp
  qed
  have b: "scoreboard (apply_operation sync_allowdeny (Aggregate scores ch) g) =
     fold (\<lambda>(member_id, score) sb. cache_increment member_id (points score) sb)
          (filter_blocked_users g scores) (scoreboard g)"
    by (simp add: apply_operation_def process_results_scoreboard)
  have c: "scoreboard (apply_operation sync_allowdeny (Command (Block user)) g) =
     cache_delete user (scoreboard g)"
    by (simp add: apply_operation_def run_command_scoreboard)
  have d: "cog_emoji_confirm g \<noteq> cog_emoji_deny g \<longrightarrow>
      scoreboard (apply_operation sync_allowdeny
                    (Command (GameClear (Some (cog_emoji_confirm g)))) g) = []"
    by (simp add: apply_operation_def run_command_scoreboard)
  from a b c d show ?thesis by blast
qed

theorem scoreboard_mutators_witness:
  "scoreboard (apply_operation Inr (Command (GameClear (Some (Emoji 8)))) example_cog) = [] \<and>
   scoreboard (apply_operation Inr (Command (GameClear (Some (Emoji 8)))) example_cog)
     \<noteq> scoreboard example_cog \<and>
   scoreboard (apply_operation Inr (Command (Unblock 42)) example_cog) = scoreboard example_cog"
proof -
  have e: "cog_emoji_confirm example_cog = Emoji 8" "cog_emoji_deny example_cog = Emoji 9"
    "scoreboard example_cog = [(42, 1), (7, 3)]"
    by (simp_all add: example_cog_def)
  show ?thesis
    using scoreboard_mutators [where g = example_cog and sync_allowdeny = Inr
        and opn = "Command (Unblock 42)"]
      scoreboard_mutators [where g = example_cog and sync_allowdeny = Inr
        and opn = "Command (GameClear (Some (Emoji 8)))"]
    by (auto simp: e)
qed

text \<open>
  The aggregation is not the only operation that changes stored scores: blocking member
  42 removes their score, and a confirmed clear removes every score.
\<close>

theorem block_changes_scoreboard_counterexample:
  "scoreboard example_cog = [(42, 1), (7, 3)] \<and>
   scoreboard (apply_operation Inr (Command (Block 42)) example_cog) = [(7, 3)] \<and>
   scoreboard (apply_operation Inr (Command (GameClear (Some (Emoji 8)))) example_cog) = []"
  by (simp add: example_cog_def apply_operation_def run_command_def cache_delete_def
        cache_clear_def cache_set_def)

section \<open>The game loop and the stop request\<close>




lemma filter_blocked_users_cong:
  "blocked_users g' = blocked_users g \<Longrightarrow> filter_blocked_users g' scores = filter_blocked_users g scores"
  by (simp add: filter_blocked_users_def)
















section \<open>The leaderboard\<close>

lemma update_fresh:
  "k \<notin> fst ` set al \<Longrightarrow> AList.update k v al = al @ [(k, v)]"
  by (induction al) auto

lemma inner_fold_append:
  "distinct (map fst lb @ map fst grp) \<Longrightarrow>
   fold (\<lambda>(member_id, score) leaderboard. AList.update member_id (E score) leaderboard) grp lb =
     lb @ map (\<lambda>(m, s). (m, E s)) grp"
proof (induction grp arbitrary: lb)
  case Nil
  then show ?case by simp
next
  case (Cons a grp)
  obtain m s where a: "a = (m, s)" by (cases a)
  have fresh: "m \<notin> fst ` set lb" using Cons.prems a by auto
  have d: "distinct (map fst (lb @ [(m, E s)]) @ map fst grp)" using Cons.prems a by auto
  show ?case
    using Cons.IH [OF d] by (simp add: a update_fresh [OF fresh])
qed

lemma outer_fold_assign_ranks:
  fixes gs :: "('k \<times> (int \<times> int) list) list"
  defines "F \<equiv> (\<lambda>(_ :: 'k, group) (leaderboard, rank).
           (fold (\<lambda>(member_id, score) leaderboard.
                    AList.update member_id
                      \<lparr>rank = rank, score = score, tied = (length group > 1)\<rparr> leaderboard)
                 group leaderboard,
            rank + int (length group)))"
  assumes "distinct (map fst lb @ map fst (concat (map snd gs)))"
  shows "fold F gs (lb, r) =
     (lb @ assign_ranks r (map snd gs), r + int (length (concat (map snd gs))))"
  using assms(2)
proof (induction gs arbitrary: lb r)
  case Nil
  then show ?case by simp
next
  case (Cons a gs)
  obtain k g where a: "a = (k, g)" by (cases a)
  let ?new = "map (\<lambda>(m, s). (m, \<lparr>rank = r, score = s, tied = (length g > 1)\<rparr>)) g"
  have dg: "distinct (map fst lb @ map fst g)" using Cons.prems a by auto
  have inner: "fold (\<lambda>(member_id, score) leaderboard.
                    AList.update member_id
                      \<lparr>rank = r, score = score, tied = (length g > 1)\<rparr> leaderboard) g lb
               = lb @ ?new"
    using inner_fold_append [OF dg, where E = "\<lambda>s. \<lparr>rank = r, score = s, tied = (length g > 1)\<rparr>"]
    by simp
  have step: "F (k, g) (lb, r) = (lb @ ?new, r + int (length g))"
    unfolding F_def using inner by simp
  have fst_new: "map fst ?new = map fst g" by (induction g) auto
  have d': "distinct (map fst (lb @ ?new) @ map fst (concat (map snd gs)))"
    unfolding map_append fst_new using Cons.prems a by simp
  have "fold F (a # gs) (lb, r) = fold F gs (F (k, g) (lb, r))" by (simp add: a)
  also have "\<dots> = fold F gs (lb @ ?new, r + int (length g))" by (simp only: step)
  also have "\<dots> = ((lb @ ?new) @ assign_ranks (r + int (length g)) (map snd gs),
                      r + int (length g) + int (length (concat (map snd gs))))"
    by (rule Cons.IH [OF d'])
  finally show ?case by (simp add: a)
qed

lemma concat_groupby: "concat (map snd (groupby key xs)) = xs"
  by (induction key xs rule: groupby.induct) simp_all


lemma get_sorted_leaderboard_spec:
  assumes "distinct (map fst scores)"
  shows "get_sorted_leaderboard scores = spec_leaderboard scores"
proof (cases "scores = []")
  case True
  then show ?thesis by (simp add: get_sorted_leaderboard_def spec_leaderboard_def)
next
  case False
  let ?sorted = "sort_key (\<lambda>item. - snd item) scores"
  have "distinct (map fst ?sorted)"
    using assms by (simp add: distinct_map)
  then have d: "distinct (map fst [] @ map fst (concat (map snd (groupby snd ?sorted))))"
    by (simp add: concat_groupby)
  show ?thesis
    using False outer_fold_assign_ranks [OF d, of 1]
    by (simp add: get_sorted_leaderboard_def spec_leaderboard_def Let_def)
qed

lemma dropWhile_lower:
  assumes "sorted_wrt (\<lambda>a b. snd b \<le> snd a) xs" "\<forall>y\<in>set xs. snd y \<le> (k::int)"
  shows "\<forall>y\<in>set (dropWhile (\<lambda>y. snd y = k) xs). snd y < k"
  using assms
proof (induction xs)
  case Nil
  then show ?case by simp
next
  case (Cons a xs)
  show ?case
  proof (cases "snd a = k")
    case True
    then show ?thesis using Cons by simp
  next
    case False
    then have "snd a < k" using Cons.prems(2) by auto
    moreover have "\<forall>y\<in>set xs. snd y \<le> snd a" using Cons.prems(1) by simp
    ultimately show ?thesis using False by auto
  qed
qed

lemma assign_ranks_groupby:
  "sorted_wrt (\<lambda>a b. snd b \<le> snd a) xs \<Longrightarrow>
   assign_ranks r (map snd (groupby snd xs)) = map (entry_of r xs) xs"
proof (induction xs arbitrary: r rule: length_induct)
  case (1 xs)
  show ?case
  proof (cases xs)
    case Nil
    then show ?thesis by simp
  next
    case (Cons x rest)
    define k where "k = snd x"
    define g where "g = x # takeWhile (\<lambda>y. snd y = k) rest"
    define d where "d = dropWhile (\<lambda>y. snd y = k) rest"
    have xs: "xs = g @ d" by (simp add: Cons g_def d_def)
    have gb: "groupby snd xs = (k, g) # groupby snd d"
      by (simp add: Cons g_def d_def k_def)
    have srt: "sorted_wrt (\<lambda>a b. snd b \<le> snd a) d"
      using "1.prems" unfolding xs by (simp add: sorted_wrt_append)
    have len: "length d < length xs" by (simp add: xs g_def)
    have IH: "assign_ranks (r + int (length g)) (map snd (groupby snd d)) =
                map (entry_of (r + int (length g)) d) d"
      using "1.IH" len srt by blast
    have gk: "\<forall>y\<in>set g. snd y = k"
      by (auto simp: g_def k_def dest: set_takeWhileD)
    have "\<forall>y\<in>set rest. snd y \<le> k"
      using "1.prems" by (simp add: Cons k_def)
    moreover have "sorted_wrt (\<lambda>a b. snd b \<le> snd a) rest"
      using "1.prems" by (simp add: Cons)
    ultimately have dk: "\<forall>y\<in>set d. snd y < k"
      unfolding d_def by (intro dropWhile_lower)
    have fg1: "filter (\<lambda>(m', s'). k < s') g = []"
      using gk by (auto simp: filter_empty_conv)
    have fg2: "filter (\<lambda>(m', s'). s' = k) g = g"
      using gk by (auto simp: filter_id_conv)
    have fd1: "filter (\<lambda>(m', s'). k < s') d = []"
      using dk by (fastforce simp: filter_empty_conv)
    have fd2: "filter (\<lambda>(m', s'). s' = k) d = []"
      using dk by (fastforce simp: filter_empty_conv)
    have A: "map (\<lambda>(m, s). (m, \<lparr>rank = r, score = s, tied = (length g > 1)\<rparr>)) g =
             map (entry_of r xs) g"
    proof (rule map_cong [OF refl])
      fix y assume "y \<in> set g"
      then have "snd y = k" using gk by blast
      then show "(case y of (m, s) \<Rightarrow> (m, \<lparr>rank = r, score = s, tied = (length g > 1)\<rparr>)) =
                 entry_of r xs y"
        by (cases y) (simp add: entry_of_def xs fg1 fg2 fd1 fd2)
    qed
    have B: "map (entry_of (r + int (length g)) d) d = map (entry_of r xs) d"
    proof (rule map_cong [OF refl])
      fix y assume y: "y \<in> set d"
      then have lt: "snd y < k" using dk by blast
      have h1: "filter (\<lambda>(m', s'). snd y < s') g = g"
        using gk lt by (auto simp: filter_id_conv)
      have h2: "filter (\<lambda>(m', s'). s' = snd y) g = []"
        using gk lt by (fastforce simp: filter_empty_conv)
      show "entry_of (r + int (length g)) d y = entry_of r xs y"
        using h1 h2 by (cases y) (simp add: entry_of_def xs)
    qed
    have "assign_ranks r (map snd (groupby snd xs)) =
            map (\<lambda>(m, s). (m, \<lparr>rank = r, score = s, tied = (length g > 1)\<rparr>)) g @
            assign_ranks (r + int (length g)) (map snd (groupby snd d))"
      unfolding gb by simp
    also have "\<dots> = map (entry_of r xs) g @ map (entry_of r xs) d"
      by (simp only: A IH B)
    also have "\<dots> = map (entry_of r xs) xs"
      by (simp add: xs)
    finally show ?thesis .
  qed
qed


lemma sort_key_desc:
  "sorted_wrt (\<lambda>a b. snd b \<le> snd a) (sort_key (\<lambda>item. - snd item) (scores :: (int \<times> int) list))"
proof -
  have "sorted (map (\<lambda>item. - snd item) (sort_key (\<lambda>item. - snd item) scores))"
    by (rule sorted_sort_key)
  then show ?thesis by (simp add: sorted_map)
qed

lemma entry_of_sort_key:
  "entry_of r (sort_key f scores) = entry_of r scores"
proof -
  have "length (filter P (sort_key f scores)) = length (filter P scores)" for P
    by (simp add: filter_sort)
  then show ?thesis by (simp add: entry_of_def)
qed

lemma spec_leaderboard_entries:
  "spec_leaderboard scores =
     map (entry_of 1 scores) (sort_key (\<lambda>item. - snd item) scores)"
  unfolding spec_leaderboard_def
  by (simp only: assign_ranks_groupby [OF sort_key_desc] entry_of_sort_key)

lemma map_fst_entry_of: "map fst (map (entry_of r xs) ys) = map fst ys"
  by (induction ys) (auto simp: entry_of_def)

text \<open>
  Claim C2. For a scoreboard (a dict: one score per member id) the leaderboard computed by
  the code is the one described by the ranking algorithm: sort by descending score
  (stable), group consecutive equal scores, give every member of a group the current rank
  counter and \<open>tied = (group size > 1)\<close>, and advance the counter by the group's
  size. Hence the entries come in the sorted order, and each member's rank is 1 plus the
  number of members with a strictly higher score (ranks start at 1 and skip over tied
  positions), with \<open>tied\<close> set iff another member has the same score. For the
  scores \<open>{A: 10, B: 10, C: 5}\<close> this gives \<open>A\<close> and \<open>B\<close> rank 1 (tied) and
  \<open>C\<close> rank 3 (not tied).
\<close>

theorem get_sorted_leaderboard_ranking:
  assumes "distinct (map fst scores)"
  shows "get_sorted_leaderboard scores = spec_leaderboard scores \<and>
         get_sorted_leaderboard scores =
           map (\<lambda>(m, s).
                  (m, \<lparr>rank = 1 + int (length (filter (\<lambda>(m', s'). s < s') scores)),
                       score = s,
                       tied = (1 < length (filter (\<lambda>(m', s'). s' = s) scores))\<rparr>))
               (sort_key (\<lambda>item. - snd item) scores) \<and>
         (\<forall>(m, s) \<in> set scores.
            map_of (get_sorted_leaderboard scores) m =
              Some \<lparr>rank = 1 + int (length (filter (\<lambda>(m', s'). s < s') scores)),
                    score = s,
                    tied = (1 < length (filter (\<lambda>(m', s'). s' = s) scores))\<rparr>)"
proof -
  let ?lb = "map (entry_of 1 scores) (sort_key (\<lambda>item. - snd item) scores)"
  have a: "get_sorted_leaderboard scores = spec_leaderboard scores"
    by (rule get_sorted_leaderboard_spec [OF assms])
  have b: "get_sorted_leaderboard scores = ?lb"
    by (simp only: a spec_leaderboard_entries)
  have d: "distinct (map fst ?lb)"
    using assms by (simp only: map_fst_entry_of) (simp add: distinct_map)
  have c: "map_of ?lb m = Some (snd (entry_of 1 scores (m, s)))" if "(m, s) \<in> set scores" for m s
  proof -
    have "entry_of 1 scores (m, s) \<in> set ?lb" using that by simp
    moreover have "entry_of 1 scores (m, s) = (m, snd (entry_of 1 scores (m, s)))"
      by (simp add: entry_of_def)
    ultimately have "(m, snd (entry_of 1 scores (m, s))) \<in> set ?lb" by simp
    then show ?thesis using d by (simp only: map_of_eq_Some_iff)
  qed
  show ?thesis
    using a c unfolding b by (auto simp: entry_of_def)
qed

theorem get_sorted_leaderboard_ranking_witness:
  "get_sorted_leaderboard [(1, 10), (2, 10), (3, 5)] =
     [(1, \<lparr>rank = 1, score = 10, tied = True\<rparr>),
      (2, \<lparr>rank = 1, score = 10, tied = True\<rparr>),
      (3, \<lparr>rank = 3, score = 5, tied = False\<rparr>)]"
proof -
  have d: "distinct (map fst [(1 :: int, 10 :: int), (2, 10), (3, 5)])" by simp
  show ?thesis
    unfolding get_sorted_leaderboard_ranking [OF d, THEN conjunct2, THEN conjunct1]
    by simp
qed

end
